theory Spec2Isabelle
  imports Main "HOL-Library.AList"
begin

section \<open>JavaScript values\<close>

text \<open>
  The form engine of \<^verbatim>\<open>src/unnamed/part_000\<close> stores values of TypeScript type
  \<^verbatim>\<open>any\<close>. They are modelled by the datatype below. Numbers are the integers and
  \<^verbatim>\<open>NaN\<close>; fractions and infinities do not occur in what follows. An object is the
  list of its own properties in insertion order.
\<close>

datatype jsval =
    JUndefined
  | JNull
  | JBool bool
  | JNum int
  | JNaN
  | JStr string
  | JArr "jsval list"
  | JObj "(string \<times> jsval) list"

text \<open>\<^verbatim>\<open>!!v\<close>: the values that count as false in a condition.\<close>

fun truthy :: "jsval \<Rightarrow> bool" where
  "truthy JUndefined = False"
| "truthy JNull = False"
| "truthy (JBool b) = b"
| "truthy (JNum n) = (n \<noteq> 0)"
| "truthy JNaN = False"
| "truthy (JStr s) = (s \<noteq> [])"
| "truthy (JArr xs) = True"
| "truthy (JObj ps) = True"

text \<open>\<^verbatim>\<open>v ?? undefined\<close>: \<^verbatim>\<open>null\<close> and \<^verbatim>\<open>undefined\<close> both become \<^verbatim>\<open>undefined\<close>.\<close>

definition or_undefined :: "jsval \<Rightarrow> jsval" where
  "or_undefined v = (if v = JNull \<or> v = JUndefined then JUndefined else v)"

text \<open>\<^verbatim>\<open>a && b\<close> yields \<^verbatim>\<open>a\<close> when \<^verbatim>\<open>a\<close> is falsy and \<^verbatim>\<open>b\<close> otherwise.\<close>

definition js_and :: "jsval \<Rightarrow> jsval \<Rightarrow> jsval" where
  "js_and a b = (if truthy a then b else a)"

text \<open>Reading a property that the object does not have yields \<^verbatim>\<open>undefined\<close>.\<close>

definition read :: "jsval option \<Rightarrow> jsval" where
  "read p = (case p of None \<Rightarrow> JUndefined | Some v \<Rightarrow> v)"

section \<open>Field records and the registry\<close>

text \<open>
  \<^verbatim>\<open>FormFieldType\<close>. The registry operations build objects by spreading, and callers
  pass \<^verbatim>\<open>Partial<FormFieldType>\<close>, so a stored object may lack any of the eight
  properties: \<open>None\<close> is an absent property, \<open>Some JUndefined\<close> a property that is
  present and holds \<^verbatim>\<open>undefined\<close>. The fields \<open>registered\<close> and \<open>item\<close> are the
  properties \<^verbatim>\<open>_registered\<close> and \<^verbatim>\<open>_item\<close>.
\<close>

record FormFieldType =
  required :: "jsval option"
  touched :: "jsval option"
  originalValue :: "jsval option"
  "value" :: "jsval option"
  error :: "jsval option"
  errorMessage :: "jsval option"
  registered :: "jsval option"
  item :: "jsval option"

text \<open>The object literal \<^verbatim>\<open>{}\<close>.\<close>

definition empty_object :: FormFieldType where
  "empty_object = \<lparr>required = None, touched = None, originalValue = None, value = None,
     error = None, errorMessage = None, registered = None, item = None\<rparr>"

text \<open>\<^verbatim>\<open>{...a, ...b}\<close>: every property that \<open>b\<close> has wins over the one of \<open>a\<close>.\<close>

definition over :: "'a option \<Rightarrow> 'a option \<Rightarrow> 'a option" where
  "over a b = (case b of None \<Rightarrow> a | Some v \<Rightarrow> Some v)"

definition spread :: "FormFieldType \<Rightarrow> FormFieldType \<Rightarrow> FormFieldType" where
  "spread a b = \<lparr>required = over (required a) (required b),
     touched = over (touched a) (touched b),
     originalValue = over (originalValue a) (originalValue b),
     value = over (value a) (value b),
     error = over (error a) (error b),
     errorMessage = over (errorMessage a) (errorMessage b),
     registered = over (registered a) (registered b),
     item = over (item a) (item b)\<rparr>"

text \<open>
  The state \<^verbatim>\<open>fields\<close>, a \<^verbatim>\<open>Record<string, FormFieldType>\<close>: the entries in the order
  \<^verbatim>\<open>Object.entries\<close> lists them. \<open>AList.update\<close> is the assignment \<^verbatim>\<open>obj[k] = v\<close>: an
  existing key keeps its place, a new key goes last. (Field names that are canonical
  array indices, which JavaScript lists first, and names of members of
  \<^verbatim>\<open>Object.prototype\<close> are not considered.)
\<close>

type_synonym registry = "(string \<times> FormFieldType) list"

text \<open>\<^verbatim>\<open>_prev[name] || {}\<close>: an object is truthy, so the fallback is taken only for a missing key.\<close>

definition or_empty :: "FormFieldType option \<Rightarrow> FormFieldType" where
  "or_empty f = (case f of None \<Rightarrow> empty_object | Some r \<Rightarrow> r)"

text \<open>
  Every updater below is the function handed to \<^verbatim>\<open>setFields\<close>: it takes the previous
  registry \<open>prev\<close> and returns the next one.
\<close>

definition reregisterField :: "string \<Rightarrow> registry \<Rightarrow> registry" where
  "reregisterField name prev =
     AList.update name ((or_empty (map_of prev name))\<lparr>registered := Some (JBool True)\<rparr>) prev"

definition unregisterField :: "string \<Rightarrow> registry \<Rightarrow> registry" where
  "unregisterField name prev =
     AList.update name ((or_empty (map_of prev name))\<lparr>registered := Some (JBool False)\<rparr>) prev"

text \<open>\<^verbatim>\<open>if (updatedPrev[name]) delete updatedPrev[name]\<close>.\<close>

definition deleteField :: "string \<Rightarrow> registry \<Rightarrow> registry" where
  "deleteField name prev =
     (case map_of prev name of None \<Rightarrow> prev | Some r \<Rightarrow> AList.delete name prev)"

text \<open>\<^verbatim>\<open>fields[name]?._registered === true\<close>.\<close>

definition isFieldRegistered :: "registry \<Rightarrow> string \<Rightarrow> bool" where
  "isFieldRegistered fs name =
     (case map_of fs name of None \<Rightarrow> False | Some r \<Rightarrow> registered r = Some (JBool True))"

text \<open>
  \<^verbatim>\<open>updateField(name, field = {})\<close>. The argument is \<open>None\<close> when the caller passes
  \<^verbatim>\<open>undefined\<close>, for which the default \<^verbatim>\<open>{}\<close> stands in.
\<close>

definition updateField :: "string \<Rightarrow> FormFieldType option \<Rightarrow> registry \<Rightarrow> registry" where
  "updateField name field prev =
     AList.update name (spread (or_empty (map_of prev name)) (or_empty field)) prev"

text \<open>
  \<^verbatim>\<open>touchForm\<close>, \<^verbatim>\<open>resetForm\<close> and \<^verbatim>\<open>clearForm\<close> rebuild the registry with
  \<^verbatim>\<open>Object.entries(_prev).reduce\<close>, assigning \<^verbatim>\<open>acc[k]\<close> for each entry in turn.
\<close>

definition touchForm :: "registry \<Rightarrow> registry" where
  "touchForm prev =
     fold (\<lambda>(k, v) acc. AList.update k (v\<lparr>touched := Some (JBool True)\<rparr>) acc) prev []"

definition resetForm :: "registry \<Rightarrow> registry" where
  "resetForm prev =
     fold (\<lambda>(k, v) acc. AList.update k
            (v\<lparr>touched := Some (JBool (truthy (read (originalValue v)))),
               value := Some (or_undefined (read (originalValue v))),
               error := Some (JBool False),
               errorMessage := Some JNull\<rparr>) acc) prev []"

definition clearForm :: "registry \<Rightarrow> registry" where
  "clearForm prev =
     fold (\<lambda>(k, v) acc. AList.update k
            (v\<lparr>touched := Some (JBool False),
               value := Some JUndefined,
               error := Some (JBool False),
               errorMessage := Some JNull\<rparr>) acc) prev []"

section \<open>Field names, indices and initial values\<close>

text \<open>\<^verbatim>\<open>k.includes('.')\<close>, \<^verbatim>\<open>k.startsWith(name)\<close> and \<^verbatim>\<open>k.split('.')\<close>.\<close>

definition includes_dot :: "string \<Rightarrow> bool" where
  "includes_dot k = (CHR ''.'' \<in> set k)"

definition startsWith :: "string \<Rightarrow> string \<Rightarrow> bool" where
  "startsWith k name = (take (length name) k = name)"

fun split_dot :: "string \<Rightarrow> string list" where
  "split_dot [] = [[]]"
| "split_dot (c # cs) =
     (if c = CHR ''.'' then [] # split_dot cs
      else (case split_dot cs of [] \<Rightarrow> [[c]] | p # ps \<Rightarrow> (c # p) # ps))"

text \<open>
  The destructuring \<^verbatim>\<open>const [listName, itemTheoreticalIndex] = k.split('.')\<close> reads the
  elements 0 and 1 of the array; an element beyond its end is \<^verbatim>\<open>undefined\<close> (\<open>None\<close>).
  Used as a property key, \<^verbatim>\<open>undefined\<close> is the string \<^verbatim>\<open>"undefined"\<close>.
\<close>

definition element :: "nat \<Rightarrow> string list \<Rightarrow> string option" where
  "element i parts = (if i < length parts then Some (parts ! i) else None)"

definition property_key :: "string option \<Rightarrow> string" where
  "property_key s = (case s of None \<Rightarrow> ''undefined'' | Some k \<Rightarrow> k)"

text \<open>
  \<^verbatim>\<open>Number(s)\<close> on a string, \<open>None\<close> standing for \<^verbatim>\<open>NaN\<close>. The model is exact on the
  empty string (which is 0), on decimal digit strings with an optional sign (below
  \<open>2^53\<close>, where a double holds every integer), and on strings that are no numeric
  literal at all. The other numeric literals of JavaScript (surrounding white space, a
  radix prefix, an exponent, \<^verbatim>\<open>Infinity\<close>) are outside the model, which reads them as
  \<^verbatim>\<open>NaN\<close>. \<^verbatim>\<open>Number(undefined)\<close> is \<^verbatim>\<open>NaN\<close>.
\<close>

definition is_digit :: "char \<Rightarrow> bool" where
  "is_digit c = (48 \<le> (of_char c :: nat) \<and> (of_char c :: nat) \<le> 57)"

definition is_digits :: "string \<Rightarrow> bool" where
  "is_digits s = (s \<noteq> [] \<and> list_all is_digit s)"

definition digits_val :: "string \<Rightarrow> nat" where
  "digits_val s = foldl (\<lambda>acc c. acc * 10 + (of_char c - 48)) 0 s"

definition Number_str :: "string \<Rightarrow> int option" where
  "Number_str s =
     (case s of
        [] \<Rightarrow> Some 0
      | c # r \<Rightarrow>
          if c = CHR ''-'' \<and> is_digits r then Some (- int (digits_val r))
          else if c = CHR ''+'' \<and> is_digits r then Some (int (digits_val r))
          else if is_digits s then Some (int (digits_val s))
          else None)"

definition Number :: "string option \<Rightarrow> int option" where
  "Number s = (case s of None \<Rightarrow> None | Some t \<Rightarrow> Number_str t)"

text \<open>The decimal text of a number, as the template literal \<^verbatim>\<open>`${name}.${i}`\<close> renders it.\<close>

definition digit_char :: "nat \<Rightarrow> char" where
  "digit_char d = char_of (48 + d)"

fun show_nat :: "nat \<Rightarrow> string" where
  "show_nat n = (if n < 10 then [digit_char n] else show_nat (n div 10) @ [digit_char (n mod 10)])"

declare show_nat.simps [simp del]

definition show_int :: "int \<Rightarrow> string" where
  "show_int i = (if i < 0 then CHR ''-'' # show_nat (nat (- i)) else show_nat (nat i))"

definition item_name :: "string \<Rightarrow> int \<Rightarrow> string" where
  "item_name name i = name @ ''.'' @ show_int i"

text \<open>\<^verbatim>\<open>arr?.[i]\<close> on an array value: the element, or \<^verbatim>\<open>undefined\<close> outside the array.\<close>

definition index_get :: "jsval \<Rightarrow> int \<Rightarrow> jsval" where
  "index_get a i =
     (case a of
        JArr xs \<Rightarrow> if 0 \<le> i \<and> nat i < length xs then xs ! nat i else JUndefined
      | _ \<Rightarrow> JUndefined)"

definition isArray :: "jsval \<Rightarrow> bool" where
  "isArray a = (case a of JArr xs \<Rightarrow> True | _ \<Rightarrow> False)"

section \<open>Registration\<close>

text \<open>
  The prop \<^verbatim>\<open>initialValues\<close> (default \<^verbatim>\<open>{}\<close>) is an object, the list of its properties;
  \<^verbatim>\<open>initialTouched\<close> is an optional boolean. \<^verbatim>\<open>!!x || initialTouched || false\<close> is a
  boolean in every case.
\<close>

type_synonym initial_values = "(string \<times> jsval) list"

definition touched_init :: "jsval \<Rightarrow> bool option \<Rightarrow> bool" where
  "touched_init x initialTouched = (truthy x \<or> initialTouched = Some True)"

text \<open>The record built for element \<open>index\<close> of an initial array (the \<^verbatim>\<open>isArray\<close> branch).\<close>

definition array_item_record :: "bool option \<Rightarrow> FormFieldType \<Rightarrow> jsval \<Rightarrow> FormFieldType" where
  "array_item_record initialTouched field x =
     (spread
        (empty_object\<lparr>required := Some (JBool False),
           touched := Some (JBool (touched_init x initialTouched)),
           value := Some x,
           originalValue := Some x,
           error := Some (JBool False),
           errorMessage := Some JNull\<rparr>)
        field)\<lparr>registered := Some (JBool True), item := Some (JBool True)\<rparr>"

text \<open>The initial value of a single field: by name, or by \<^verbatim>\<open>group.index\<close> into an array.\<close>

definition resolve_initial :: "initial_values \<Rightarrow> string \<Rightarrow> jsval" where
  "resolve_initial initialValues name =
     (let initialValue = read (map_of initialValues name) in
      if includes_dot name then
        (let listName = property_key (element 0 (split_dot name));
             itemTheoreticalIndex = element 1 (split_dot name);
             itemIndex = (case Number itemTheoreticalIndex of None \<Rightarrow> - 1 | Some n \<Rightarrow> n)
         in if truthy (read (map_of initialValues listName))
               \<and> isArray (read (map_of initialValues listName)) \<and> itemIndex > - 1
            then index_get (read (map_of initialValues listName)) itemIndex
            else initialValue)
      else initialValue)"

text \<open>The record built for a single field (the \<^verbatim>\<open>else\<close> branch).\<close>

definition single_record ::
  "initial_values \<Rightarrow> bool option \<Rightarrow> string \<Rightarrow> FormFieldType \<Rightarrow> FormFieldType" where
  "single_record initialValues initialTouched name field =
     (let initialValue = resolve_initial initialValues name in
      (spread
         (empty_object\<lparr>required := Some (JBool False),
            touched := Some (JBool (touched_init initialValue initialTouched)),
            value := Some (or_undefined initialValue),
            originalValue := Some (or_undefined (read (value field))),
            error := Some (JBool False),
            errorMessage := Some JNull\<rparr>)
         field)\<lparr>registered := Some (JBool True), item := Some (JBool (includes_dot name))\<rparr>)"

definition fieldsToMerge ::
  "initial_values \<Rightarrow> bool option \<Rightarrow> string \<Rightarrow> FormFieldType \<Rightarrow> bool \<Rightarrow> registry" where
  "fieldsToMerge initialValues initialTouched name field isArray' =
     (if isArray' then
        (case read (map_of initialValues name) of
           JArr xs \<Rightarrow>
             fold (\<lambda>(x, index) acc.
                     AList.update (item_name name (int index))
                       (array_item_record initialTouched field x) acc)
               (zip xs [0 ..< length xs]) []
         | _ \<Rightarrow> [])
      else [(name, single_record initialValues initialTouched name field)])"

text \<open>
  \<^verbatim>\<open>registerField(name, field = {}, isArray = false)\<close>: the updater
  \<^verbatim>\<open>{..._prev, ...fieldsToMerge}\<close>.
\<close>

definition registerField ::
  "initial_values \<Rightarrow> bool option \<Rightarrow> string \<Rightarrow> FormFieldType \<Rightarrow> bool \<Rightarrow> registry \<Rightarrow> registry" where
  "registerField initialValues initialTouched name field isArray' prev =
     fold (\<lambda>(k, v) acc. AList.update k v acc)
       (fieldsToMerge initialValues initialTouched name field isArray') prev"

section \<open>Validation\<close>

text \<open>
  The schema library is an external collaborator. An issue it reports carries a path
  of keys and indices and a message; \<^verbatim>\<open>path.join('.')\<close> is the flat name of the issue.
\<close>

datatype path_key = PStr string | PNum nat

record issue =
  path :: "path_key list"
  message :: string

datatype safeParse_result = Success | Failure "issue list"

fun key_text :: "path_key \<Rightarrow> string" where
  "key_text (PStr s) = s"
| "key_text (PNum n) = show_nat n"

fun join_dot :: "string list \<Rightarrow> string" where
  "join_dot [] = []"
| "join_dot [x] = x"
| "join_dot (x # y # ys) = x @ ''.'' @ join_dot (y # ys)"

text \<open>
  The value tree handed to the validator is built by assignments on an empty object:
  \<^verbatim>\<open>acc[k] = v\<close> for a plain name, and \<^verbatim>\<open>acc[listName][itemIndex] = v\<close> (after
  \<^verbatim>\<open>if (!acc[listName]) acc[listName] = []\<close>) for a dotted one, where an index that is
  not a number counts as 0. The tree is represented by the list of these assignments in
  the order the source performs them; \<^verbatim>\<open>cloneDeep\<close> is the identity on values.
\<close>

datatype placement = AtKey string jsval | AtIndex string int jsval

definition place :: "string \<Rightarrow> jsval \<Rightarrow> placement" where
  "place k v =
     (if includes_dot k then
        (let listName = property_key (element 0 (split_dot k));
             itemTheoreticalIndex = element 1 (split_dot k);
             itemIndex = (case Number itemTheoreticalIndex of None \<Rightarrow> 0 | Some n \<Rightarrow> n)
         in AtIndex listName itemIndex v)
      else AtKey k v)"

text \<open>\<^verbatim>\<open>flattenedFields\<close> and \<^verbatim>\<open>allRequiredFields\<close>: registered entries only.\<close>

definition flattenedFields :: "registry \<Rightarrow> placement list" where
  "flattenedFields fs =
     fold (\<lambda>(k, v) acc.
             if truthy (read (registered v)) then acc @ [place k (read (value v))] else acc)
       fs []"

definition allRequiredFields :: "registry \<Rightarrow> (string \<times> bool) list" where
  "allRequiredFields fs =
     fold (\<lambda>(k, v) acc.
             if truthy (read (registered v)) \<and> truthy (read (required v))
             then AList.update k True acc else acc)
       fs []"

text \<open>
  The call \<^verbatim>\<open>partialSchema.merge(schema.required(allRequiredFields)).safeParse(flattenedFields)\<close>
  is a function of the table of required names and the value tree; which function is up
  to the schema, so it is a parameter of the model.
\<close>

type_synonym schema = "(string \<times> bool) list \<Rightarrow> placement list \<Rightarrow> safeParse_result"

definition erroredFieldKeys :: "safeParse_result \<Rightarrow> (string \<times> string) list" where
  "erroredFieldKeys validationResult =
     (case validationResult of
        Success \<Rightarrow> []
      | Failure issues \<Rightarrow>
          fold (\<lambda>i acc. AList.update (join_dot (map key_text (path i))) (message i) acc) issues [])"

text \<open>
  \<^verbatim>\<open>updatedFields\<close>: \<^verbatim>\<open>erroredFieldKeys[k]\<close> is tested for truthiness, so a name counts as
  errored when it has a message that is not the empty string.
\<close>

definition with_touch :: "bool \<Rightarrow> FormFieldType \<Rightarrow> FormFieldType" where
  "with_touch touch v = (if touch then v\<lparr>touched := Some (JBool True)\<rparr> else v)"

definition updated_record :: "(string \<times> string) list \<Rightarrow> bool \<Rightarrow> string \<Rightarrow> FormFieldType \<Rightarrow> FormFieldType" where
  "updated_record errored touch k v =
     (case map_of errored k of
        None \<Rightarrow> with_touch touch (v\<lparr>error := Some (JBool False), errorMessage := Some JNull\<rparr>)
      | Some m \<Rightarrow>
          if truthy (JStr m)
          then with_touch touch (v\<lparr>error := Some (JBool True), errorMessage := Some (JStr m)\<rparr>)
          else with_touch touch (v\<lparr>error := Some (JBool False), errorMessage := Some JNull\<rparr>))"

definition updatedFields :: "(string \<times> string) list \<Rightarrow> bool \<Rightarrow> registry \<Rightarrow> registry" where
  "updatedFields errored touch fs =
     fold (\<lambda>(k, v) acc. AList.update k (updated_record errored touch k v) acc) fs []"

definition unregisteredFieldErrors :: "(string \<times> string) list \<Rightarrow> registry \<Rightarrow> (string \<times> string) list" where
  "unregisteredFieldErrors errored fs =
     fold (\<lambda>(k, v) acc. if k \<in> set (map fst fs) then acc else AList.update k v acc) errored []"

text \<open>\<^verbatim>\<open>{...errors, ...unregistered}\<close> on the error tables.\<close>

definition merge_errors :: "(string \<times> jsval) list \<Rightarrow> (string \<times> string) list \<Rightarrow> (string \<times> jsval) list" where
  "merge_errors errors unregistered =
     fold (\<lambda>(k, m) acc. AList.update k (JStr m) acc) unregistered errors"

text \<open>
  \<^verbatim>\<open>isFormValid\<close>, a closure over the state \<^verbatim>\<open>unregisteredErrors\<close> of the render that
  built it. The result \<^verbatim>\<open>errors\<close> is \<open>None\<close> for \<^verbatim>\<open>undefined\<close>; the test \<^verbatim>\<open>errors ? ... : undefined\<close>
  is the truthiness of the object \<^verbatim>\<open>errors\<close>.
\<close>

definition field_errors :: "registry \<Rightarrow> (string \<times> jsval) list" where
  "field_errors fs =
     fold (\<lambda>(k, v) acc.
             if truthy (read (error v)) then AList.update k (read (errorMessage v)) acc else acc)
       fs []"

definition isFormValid ::
  "(string \<times> string) list \<Rightarrow> registry \<Rightarrow> bool \<times> (string \<times> jsval) list option" where
  "isFormValid unregisteredErrors fs =
     (let errors = field_errors fs;
          valid = (length (map fst errors) = 0)
      in (valid,
          if truthy (JObj errors) then Some (merge_errors errors unregisteredErrors) else None))"

text \<open>
  \<^verbatim>\<open>FormCallbackArgs\<close>, and what a call of \<^verbatim>\<open>validateForm\<close> does: the value it returns
  and the arguments of its calls \<^verbatim>\<open>setUnregisteredErrors\<close> and \<^verbatim>\<open>setFields\<close>.
\<close>

record FormCallbackArgs =
  valid :: bool
  errors :: "(string \<times> jsval) list option"
  fields' :: "placement list"

record validation =
  returned :: FormCallbackArgs
  set_unregisteredErrors :: "(string \<times> string) list"
  set_fields :: registry

text \<open>
  \<^verbatim>\<open>validateForm\<close> is a closure over the prop \<^verbatim>\<open>schema\<close> and the state \<^verbatim>\<open>fields\<close>, and
  calls the closure \<^verbatim>\<open>isFormValid\<close>; \<open>fs\<close> and \<open>unregisteredErrors\<close> are the captured
  values.
\<close>

definition validateForm ::
  "schema \<Rightarrow> registry \<Rightarrow> (string \<times> string) list \<Rightarrow> bool \<Rightarrow> validation" where
  "validateForm schema' fs unregisteredErrors touch =
     (let validationResult = schema' (allRequiredFields fs) (flattenedFields fs);
          errored = erroredFieldKeys validationResult;
          updated = updatedFields errored touch fs;
          unregistered = unregisteredFieldErrors errored fs;
          (valid', errors') = isFormValid unregisteredErrors updated;
          simpleFields = fold (\<lambda>(k, v) acc. acc @ [place k (read (value v))]) updated []
      in \<lparr>returned =
            \<lparr>valid = valid',
             errors = (case errors' of
                         None \<Rightarrow> None
                       | Some e \<Rightarrow> if truthy (JObj e) then Some (merge_errors e unregistered) else None),
             fields' = simpleFields\<rparr>,
          set_unregisteredErrors = unregistered,
          set_fields = updated\<rparr>)"

section \<open>Submission\<close>

text \<open>
  The three state cells of the \<^verbatim>\<open>Form\<close> component. A render binds their current values
  to the constants \<^verbatim>\<open>fields\<close>, \<^verbatim>\<open>unregisteredErrors\<close> and \<^verbatim>\<open>submitting\<close>, and the
  callbacks built in that render are closures over these constants (\<^verbatim>\<open>submitting\<close> is in
  the dependency list of \<^verbatim>\<open>submitForm\<close>, so that a later render builds a new closure).
  A setter does not assign the constants: it changes the cells, which the next render
  reads. A callback therefore takes two states: \<open>c\<close>, the values its closure captured,
  and \<open>st\<close>, the cells its setters act on.
\<close>

record form_state =
  st_fields :: registry
  st_unregisteredErrors :: "(string \<times> string) list"
  st_submitting :: bool

text \<open>
  A submit handler is called with the \<^verbatim>\<open>FormCallbackArgs\<close>; the promise it returns is
  fulfilled or rejected with a reason (a handler that throws rejects). What the outside
  observes of a call: the warnings logged and the handler invocations, in order.
\<close>

datatype settled = Resolved | Rejected jsval

type_synonym handler = "FormCallbackArgs \<Rightarrow> settled"

datatype event = Warn string | Invoke FormCallbackArgs

text \<open>
  \<^verbatim>\<open>submitForm\<close> up to its \<^verbatim>\<open>await\<close>: the guard, \<^verbatim>\<open>setSubmitting(true)\<close>,
  \<^verbatim>\<open>validateForm({ touch: true })\<close> and the call of the handler. The call either has
  returned already (\<open>Returned\<close>: the guard fired, or there is no handler and
  \<^verbatim>\<open>setSubmitting(false)\<close> has run) or is suspended on the handler's promise.
\<close>

datatype suspension = Returned | Awaiting settled

record begun =
  cells :: form_state
  events :: "event list"
  suspended :: suspension

definition submitForm_begin ::
  "schema \<Rightarrow> handler option \<Rightarrow> form_state \<Rightarrow> handler option \<Rightarrow> form_state \<Rightarrow> begun" where
  "submitForm_begin schema' onSubmit c submitHandler st =
     (if st_submitting c then
        \<lparr>cells = st,
         events = [Warn ''Cannot submit a form while is it already submitting''],
         suspended = Returned\<rparr>
      else
        (let st1 = st\<lparr>st_submitting := True\<rparr>;
             v = validateForm schema' (st_fields c) (st_unregisteredErrors c) True;
             st2 = st1\<lparr>st_unregisteredErrors := set_unregisteredErrors v,
                      st_fields := set_fields v\<rparr>;
             handlerParams = returned v
         in case submitHandler of
              Some h \<Rightarrow>
                \<lparr>cells = st2, events = [Invoke handlerParams], suspended = Awaiting (h handlerParams)\<rparr>
            | None \<Rightarrow>
                (case onSubmit of
                   Some h \<Rightarrow>
                     \<lparr>cells = st2, events = [Invoke handlerParams],
                      suspended = Awaiting (h handlerParams)\<rparr>
                 | None \<Rightarrow>
                     \<lparr>cells = st2\<lparr>st_submitting := False\<rparr>, events = [], suspended = Returned\<rparr>)))"

text \<open>
  The rest of \<^verbatim>\<open>submitForm\<close>, run when the awaited promise settles: a fulfilled promise
  continues with \<^verbatim>\<open>setSubmitting(false)\<close>; a rejected one makes the \<^verbatim>\<open>await\<close> throw, which
  ends the function and rejects the promise of \<^verbatim>\<open>submitForm\<close> with the same reason.
\<close>

definition submitForm_resume :: "settled \<Rightarrow> form_state \<Rightarrow> form_state \<times> settled" where
  "submitForm_resume outcome st =
     (case outcome of
        Resolved \<Rightarrow> (st\<lparr>st_submitting := False\<rparr>, Resolved)
      | Rejected reason \<Rightarrow> (st, Rejected reason))"

text \<open>A call of \<^verbatim>\<open>submitForm\<close> that nothing interleaves with, from the call until it settles.\<close>

record submitted =
  final_cells :: form_state
  observed :: "event list"
  promise :: settled

definition submitForm ::
  "schema \<Rightarrow> handler option \<Rightarrow> form_state \<Rightarrow> handler option \<Rightarrow> form_state \<Rightarrow> submitted" where
  "submitForm schema' onSubmit c submitHandler st =
     (let b = submitForm_begin schema' onSubmit c submitHandler st in
      case suspended b of
        Returned \<Rightarrow> \<lparr>final_cells = cells b, observed = events b, promise = Resolved\<rparr>
      | Awaiting outcome \<Rightarrow>
          \<lparr>final_cells = fst (submitForm_resume outcome (cells b)),
           observed = events b,
           promise = snd (submitForm_resume outcome (cells b))\<rparr>)"

text \<open>
  Two calls of the same closure, the second made before the first is awaited: both
  run up to their \<^verbatim>\<open>await\<close> on the same captured values, the second on the cells the
  first left; then the two promises settle in turn.
\<close>

definition submitForm_twice ::
  "schema \<Rightarrow> handler option \<Rightarrow> form_state \<Rightarrow> handler option \<Rightarrow> form_state \<Rightarrow> submitted" where
  "submitForm_twice schema' onSubmit c submitHandler st =
     (let b1 = submitForm_begin schema' onSubmit c submitHandler st;
          b2 = submitForm_begin schema' onSubmit c submitHandler (cells b1);
          s1 = (case suspended b1 of
                  Returned \<Rightarrow> (cells b2, Resolved)
                | Awaiting outcome \<Rightarrow> submitForm_resume outcome (cells b2));
          s2 = (case suspended b2 of
                  Returned \<Rightarrow> (fst s1, Resolved)
                | Awaiting outcome \<Rightarrow> submitForm_resume outcome (fst s1))
      in \<lparr>final_cells = fst s2, observed = events b1 @ events b2, promise = snd s1\<rparr>)"

section \<open>The binding of a field\<close>

text \<open>
  The \<^verbatim>\<open>contextValue\<close> of \<^verbatim>\<open>Field\<close>: \<^verbatim>\<open>intent\<close>, the properties of \<^verbatim>\<open>fields[name]\<close>
  (none when the name is not stored) and \<^verbatim>\<open>error: field?.error && field?.touched\<close>. Its
  four setters are closures over \<^verbatim>\<open>updateField\<close> and carry no data.
\<close>

record FieldContextType = FormFieldType +
  intent :: "string option"

definition optional_read :: "(FormFieldType \<Rightarrow> jsval option) \<Rightarrow> FormFieldType option \<Rightarrow> jsval" where
  "optional_read sel field = (case field of None \<Rightarrow> JUndefined | Some r \<Rightarrow> read (sel r))"

definition Field_contextValue :: "string option \<Rightarrow> registry \<Rightarrow> string \<Rightarrow> FieldContextType" where
  "Field_contextValue intent' fs name =
     (let field = map_of fs name in
      FormFieldType.extend
        ((or_empty field)
           \<lparr>error := Some (js_and (optional_read error field) (optional_read touched field))\<rparr>)
        (FieldContextType.fields intent'))"

section \<open>Removing an item of an array group\<close>

text \<open>
  \<^verbatim>\<open>removeHandler\<close> of \<^verbatim>\<open>FieldArray\<close>, a closure over the group's \<^verbatim>\<open>name\<close> and the
  rendered \<^verbatim>\<open>fields\<close>. \<^verbatim>\<open>indexedMap\<close> is keyed by \<^verbatim>\<open>Number(index)\<close> (\<open>None\<close> is the key
  \<^verbatim>\<open>NaN\<close>); only the number of its keys is used.
\<close>

definition indexedMap :: "string \<Rightarrow> registry \<Rightarrow> (int option \<times> FormFieldType) list" where
  "indexedMap name fs =
     fold (\<lambda>(k, v) acc.
             if startsWith k name \<and> includes_dot k
             then AList.update (Number (element 1 (split_dot k))) v acc
             else acc)
       fs []"

text \<open>
  The loop \<^verbatim>\<open>for (let i = itemIndex; i < bound; i++) updateField(`${name}.${i}`, _fields[`${name}.${i + 1}`])\<close>,
  each call an updater applied to the cells.
\<close>

function shift_down :: "string \<Rightarrow> registry \<Rightarrow> int \<Rightarrow> int \<Rightarrow> registry \<Rightarrow> registry" where
  "shift_down name fs i bound prev =
     (if i < bound
      then shift_down name fs (i + 1) bound
             (updateField (item_name name i) (map_of fs (item_name name (i + 1))) prev)
      else prev)"
  by pat_completeness auto
termination
  by (relation "measure (\<lambda>(name, fs, i, bound, prev). nat (bound - i))") auto

declare shift_down.simps [simp del]

definition removeHandler :: "string \<Rightarrow> registry \<Rightarrow> int \<Rightarrow> registry \<Rightarrow> registry" where
  "removeHandler name fs itemIndex prev =
     (let n = int (length (map fst (indexedMap name fs)))
      in deleteField (item_name name (n - 1)) (shift_down name fs itemIndex (n - 1) prev))"

section \<open>Complete records and dense groups\<close>

text \<open>
  A record is complete when it has all eight properties, as every record built by
  \<^verbatim>\<open>registerField\<close> has. The names that \<^verbatim>\<open>removeHandler\<close> counts for a group are those
  passing its test \<^verbatim>\<open>k.startsWith(name) && k.includes('.')\<close>; the group is dense with
  \<open>n\<close> items when these names are among \<^verbatim>\<open>name.0\<close>, ..., \<^verbatim>\<open>name.(n-1)\<close> and each of
  these holds a complete record.
\<close>

definition complete :: "FormFieldType \<Rightarrow> bool" where
  "complete r =
     (required r \<noteq> None \<and> touched r \<noteq> None \<and> originalValue r \<noteq> None \<and> value r \<noteq> None
      \<and> error r \<noteq> None \<and> errorMessage r \<noteq> None \<and> registered r \<noteq> None \<and> item r \<noteq> None)"

definition dense_group :: "string \<Rightarrow> nat \<Rightarrow> registry \<Rightarrow> bool" where
  "dense_group name n fs =
     (list_all (\<lambda>k. startsWith k name \<and> includes_dot k
                      \<longrightarrow> k \<in> set (map (\<lambda>i. item_name name (int i)) [0 ..< n]))
        (map fst fs)
      \<and> list_all (\<lambda>i. case map_of fs (item_name name (int i)) of
                            None \<Rightarrow> False | Some r \<Rightarrow> complete r)
          [0 ..< n])"

section \<open>Example forms\<close>

text \<open>A form with the single field \<^verbatim>\<open>email\<close>, initial value \<^verbatim>\<open>"a@b.com"\<close>.\<close>

definition email_initial :: initial_values where
  "email_initial = [(''email'', JStr ''a@b.com'')]"

definition email_form :: registry where
  "email_form = registerField email_initial None ''email'' empty_object False []"

text \<open>A schema that accepts every value tree.\<close>

definition accepting_schema :: schema where
  "accepting_schema required' tree = Success"

text \<open>
  An array group \<^verbatim>\<open>tags\<close> registered from the initial array \<^verbatim>\<open>["a"]\<close>, under a schema
  that wants at least two tags: on the tree of this form the validator reports one
  issue, at the path \<^verbatim>\<open>["tags"]\<close> of the array itself.
\<close>

definition one_tag_form :: registry where
  "one_tag_form = registerField [(''tags'', JArr [JStr ''a''])] None ''tags'' empty_object True []"

definition two_tags_schema :: schema where
  "two_tags_schema required' tree =
     (if tree = [AtIndex ''tags'' 0 (JStr ''a'')]
      then Failure [\<lparr>path = [PStr ''tags''], message = ''Array must contain at least 2 element(s)''\<rparr>]
      else Success)"

text \<open>The cells of a form with no fields that is not submitting.\<close>

definition idle :: form_state where
  "idle = \<lparr>st_fields = [], st_unregisteredErrors = [], st_submitting = False\<rparr>"

definition rejecting_handler :: handler where
  "rejecting_handler args = Rejected (JStr ''boom'')"

definition resolving_handler :: handler where
  "resolving_handler args = Resolved"

text \<open>The group \<^verbatim>\<open>tags\<close> registered from the initial array \<^verbatim>\<open>["a", "b"]\<close>.\<close>

definition tags_form :: registry where
  "tags_form =
     registerField [(''tags'', JArr [JStr ''a'', JStr ''b''])] None ''tags'' empty_object True []"

text \<open>
  The group \<^verbatim>\<open>tags\<close> registered from \<^verbatim>\<open>["a"]\<close>, item 0 then marked as errored, and a
  second item that exists only through \<^verbatim>\<open>updateField("tags.1", {value: "b"})\<close>.
\<close>

definition partial_form :: registry where
  "partial_form =
     updateField ''tags.1'' (Some (empty_object\<lparr>value := Some (JStr ''b'')\<rparr>))
       (updateField ''tags.0'' (Some (empty_object\<lparr>error := Some (JBool True)\<rparr>))
          (registerField [(''tags'', JArr [JStr ''a''])] None ''tags'' empty_object True []))"

text \<open>Two groups, \<^verbatim>\<open>tag\<close> with one item and \<^verbatim>\<open>tags\<close> with two.\<close>

definition both_initial :: initial_values where
  "both_initial = [(''tag'', JArr [JStr ''x'']), (''tags'', JArr [JStr ''a'', JStr ''b''])]"

definition collide_form :: registry where
  "collide_form =
     registerField both_initial None ''tags'' empty_object True
       (registerField both_initial None ''tag'' empty_object True [])"

text \<open>A field that validation has marked as errored and that the user has not touched.\<close>

definition untouched_errored :: FormFieldType where
  "untouched_errored =
     \<lparr>required = Some (JBool True), touched = Some (JBool False),
      originalValue = Some JUndefined, value = Some (JStr []),
      error = Some (JBool True), errorMessage = Some (JStr ''Required''),
      registered = Some (JBool True), item = Some (JBool False)\<rparr>"

section \<open>Facts about the registry operations\<close>

lemma update_fresh: "k \<notin> fst ` set al \<Longrightarrow> AList.update k v al = al @ [(k, v)]"
  by (induction al) auto

lemma set_update_subset: "set (AList.update k v al) \<subseteq> insert (k, v) (set al)"
  by (induction al) auto

lemma rebuild_distinct:
  "distinct (map fst acc) \<Longrightarrow>
   distinct (map fst (fold (\<lambda>(k, v) acc. AList.update k (g v) acc) fs acc))"
  by (induction fs arbitrary: acc) (auto simp: distinct_update)

lemma rebuild_values:
  "\<forall>(k, v) \<in> set acc. P v \<Longrightarrow> \<forall>v. P (g v) \<Longrightarrow>
   \<forall>(k, v) \<in> set (fold (\<lambda>(k, v) acc. AList.update k (g v) acc) fs acc). P v"
proof (induction fs arbitrary: acc)
  case Nil
  then show ?case by simp
next
  case (Cons p fs)
  obtain k v where p: "p = (k, v)" by (cases p)
  have "\<forall>(k', v') \<in> set (AList.update k (g v) acc). P v'"
    using set_update_subset[of k "g v" acc] Cons.prems by auto
  from Cons.IH[OF this Cons.prems(2)] show ?case by (simp add: p)
qed

lemma rebuild_is_map:
  "distinct (map fst fs) \<Longrightarrow> fst ` set fs \<inter> fst ` set acc = {} \<Longrightarrow>
   fold (\<lambda>(k, v) acc. AList.update k (g v) acc) fs acc = acc @ map (\<lambda>(k, v). (k, g v)) fs"
proof (induction fs arbitrary: acc)
  case Nil
  then show ?case by simp
next
  case (Cons p fs)
  obtain k v where p: "p = (k, v)" by (cases p)
  have fresh: "k \<notin> fst ` set acc" using Cons.prems(2) by (auto simp: p)
  have step: "AList.update k (g v) acc = acc @ [(k, g v)]" by (rule update_fresh[OF fresh])
  have d: "distinct (map fst fs)" using Cons.prems(1) by simp
  have disj: "fst ` set fs \<inter> fst ` set (acc @ [(k, g v)]) = {}"
    using Cons.prems by (auto simp: p)
  show ?case using Cons.IH[OF d disj] by (simp add: p step)
qed

lemma rebuild_idem:
  assumes "\<And>v. g (g v) = g v"
  shows "fold (\<lambda>(k, v) acc. AList.update k (g v) acc)
           (fold (\<lambda>(k, v) acc. AList.update k (g v) acc) fs []) []
         = fold (\<lambda>(k, v) acc. AList.update k (g v) acc) fs []"
proof -
  let ?L = "fold (\<lambda>(k, v) acc. AList.update k (g v) acc) fs []"
  have d: "distinct (map fst ?L)" by (rule rebuild_distinct) simp
  have fixed: "\<forall>(k, v) \<in> set ?L. g v = v"
    by (rule rebuild_values) (simp_all add: assms)
  have "fold (\<lambda>(k, v) acc. AList.update k (g v) acc) ?L [] = [] @ map (\<lambda>(k, v). (k, g v)) ?L"
    by (rule rebuild_is_map[OF d]) simp
  also have "\<dots> = ?L" using fixed by (auto intro!: map_idI)
  finally show ?thesis .
qed

lemma map_of_updateField:
  "map_of (updateField k p prev) = (map_of prev)(k \<mapsto> spread (or_empty (map_of prev k)) (or_empty p))"
  by (simp add: updateField_def update_conv')

lemma map_of_deleteField: "map_of (deleteField k fs) = (map_of fs)(k := None)"
  by (auto simp: deleteField_def delete_conv' split: option.splits)

lemma spread_empty: "spread empty_object r = r"
  by (simp add: spread_def over_def empty_object_def split: option.splits)

lemma spread_complete: "complete r \<Longrightarrow> spread a r = r"
  by (auto simp: complete_def spread_def over_def)

section \<open>Facts about item names\<close>

lemma of_char_digit: "d < 10 \<Longrightarrow> (of_char (digit_char d) :: nat) = 48 + d"
  by (simp add: digit_char_def)

lemma is_digit_digit_char: "d < 10 \<Longrightarrow> is_digit (digit_char d)"
  by (simp add: is_digit_def of_char_digit)

lemma show_nat_digits: "list_all is_digit (show_nat n) \<and> show_nat n \<noteq> []"
  by (induction n rule: show_nat.induct)
    (subst show_nat.simps, subst (2) show_nat.simps, auto simp: is_digit_digit_char)

lemma digits_val_show_nat: "digits_val (show_nat n) = n"
proof (induction n rule: show_nat.induct)
  case (1 n)
  show ?case
  proof (cases "n < 10")
    case True
    then show ?thesis by (subst show_nat.simps) (simp add: digits_val_def of_char_digit)
  next
    case False
    have "digits_val (show_nat n) = digits_val (show_nat (n div 10)) * 10 + (n mod 10)"
      using False by (subst show_nat.simps) (simp add: digits_val_def of_char_digit)
    then show ?thesis using 1[OF False] by simp
  qed
qed

lemma Number_str_show_nat: "Number_str (show_nat n) = Some (int n)"
proof -
  obtain c r where cr: "show_nat n = c # r"
    using show_nat_digits[of n] by (cases "show_nat n") auto
  have d: "is_digit c" using show_nat_digits[of n] by (simp add: cr)
  have "c \<noteq> CHR ''-''" "c \<noteq> CHR ''+''" using d by (auto simp: is_digit_def)
  then show ?thesis using show_nat_digits[of n] digits_val_show_nat[of n]
    by (simp add: Number_str_def cr is_digits_def)
qed

lemma show_nat_no_dot: "CHR ''.'' \<notin> set (show_nat n)"
proof
  assume "CHR ''.'' \<in> set (show_nat n)"
  then have "is_digit CHR ''.''" using show_nat_digits[of n] by (auto simp: list_all_iff)
  then show False by (simp add: is_digit_def)
qed

lemma Number_str_show_int: "Number_str (show_int i) = Some i"
proof (cases "i < 0")
  case True
  have d: "is_digits (show_nat (nat (- i)))"
    using show_nat_digits[of "nat (- i)"] by (simp add: is_digits_def)
  have "Number_str (CHR ''-'' # show_nat (nat (- i)))
          = Some (- int (digits_val (show_nat (nat (- i)))))"
    unfolding Number_str_def using d by simp
  then show ?thesis using True by (simp add: show_int_def digits_val_show_nat)
next
  case False
  then show ?thesis using Number_str_show_nat[of "nat i"] by (simp add: show_int_def)
qed

lemma show_int_inj:
  assumes "show_int i = show_int j"
  shows "i = j"
proof -
  have "Some i = Number_str (show_int i)" by (simp only: Number_str_show_int)
  also have "\<dots> = Number_str (show_int j)" by (simp only: assms)
  also have "\<dots> = Some j" by (simp only: Number_str_show_int)
  finally show ?thesis by simp
qed

lemma item_name_inj: "item_name name i = item_name name j \<Longrightarrow> i = j"
  by (simp add: item_name_def show_int_inj)

lemma item_name_neq: "i \<noteq> j \<Longrightarrow> item_name name i \<noteq> item_name name j"
  using item_name_inj by blast

lemma split_dot_no_dot: "CHR ''.'' \<notin> set s \<Longrightarrow> split_dot s = [s]"
  by (induction s) auto

lemma split_dot_prefix: "CHR ''.'' \<notin> set a \<Longrightarrow> split_dot (a @ CHR ''.'' # b) = a # split_dot b"
  by (induction a) auto

lemma index_of_item_name:
  "\<not> includes_dot name \<Longrightarrow> Number (element 1 (split_dot (item_name name (int i)))) = Some (int i)"
  using show_nat_no_dot[of i]
  by (simp add: item_name_def show_int_def includes_dot_def split_dot_prefix split_dot_no_dot
      element_def Number_def Number_str_show_nat)

lemma item_name_matches: "startsWith (item_name name i) name \<and> includes_dot (item_name name i)"
  by (simp add: startsWith_def item_name_def includes_dot_def)

section \<open>Facts about removal\<close>

lemma counted_keys:
  "fst ` set (fold (\<lambda>(k, v) acc. if P k then AList.update (h k) v acc else acc) fs acc)
     = fst ` set acc \<union> h ` {k \<in> fst ` set fs. P k}"
proof (induction fs arbitrary: acc)
  case Nil
  then show ?case by simp
next
  case (Cons p fs)
  obtain k v where p: "p = (k, v)" by (cases p)
  show ?case
  proof (cases "P k")
    case True
    have "{k' \<in> fst ` set (p # fs). P k'} = insert k {k' \<in> fst ` set fs. P k'}"
      using True by (auto simp: p)
    then show ?thesis using True by (simp add: p Cons.IH dom_update)
  next
    case False
    have "{k' \<in> fst ` set (p # fs). P k'} = {k' \<in> fst ` set fs. P k'}"
      using False by (auto simp: p)
    then show ?thesis using False by (simp add: p Cons.IH)
  qed
qed

lemma counted_distinct:
  "distinct (map fst acc) \<Longrightarrow>
   distinct (map fst (fold (\<lambda>(k, v) acc. if P k then AList.update (h k) v acc else acc) fs acc))"
proof (induction fs arbitrary: acc)
  case Nil
  then show ?case by simp
next
  case (Cons p fs)
  obtain k v where p: "p = (k, v)" by (cases p)
  show ?case using Cons.prems by (auto simp: p intro!: Cons.IH distinct_update)
qed

lemma length_indexedMap:
  "length (indexedMap name fs)
     = card ((\<lambda>k. Number (element 1 (split_dot k)))
               ` {k \<in> fst ` set fs. startsWith k name \<and> includes_dot k})"
proof -
  have d: "distinct (map fst (indexedMap name fs))"
    unfolding indexedMap_def by (rule counted_distinct) simp
  have s: "fst ` set (indexedMap name fs)
     = (\<lambda>k. Number (element 1 (split_dot k)))
         ` {k \<in> fst ` set fs. startsWith k name \<and> includes_dot k}"
    unfolding indexedMap_def
    using counted_keys[of "\<lambda>k. startsWith k name \<and> includes_dot k"
        "\<lambda>k. Number (element 1 (split_dot k))" fs "[]"]
    by simp
  show ?thesis using distinct_card[OF d] s by simp
qed

lemma group_size:
  assumes nodot: "\<not> includes_dot name"
    and only: "\<forall>k \<in> fst ` set fs. startsWith k name \<and> includes_dot k
                 \<longrightarrow> (\<exists>i<n. k = item_name name (int i))"
    and all: "\<forall>i<n. item_name name (int i) \<in> fst ` set fs"
  shows "length (indexedMap name fs) = n"
proof -
  have eq: "{k \<in> fst ` set fs. startsWith k name \<and> includes_dot k}
              = (\<lambda>i. item_name name (int i)) ` {..<n}"
    using only all item_name_matches by auto
  have "(\<lambda>k. Number (element 1 (split_dot k))) ` ((\<lambda>i. item_name name (int i)) ` {..<n})
          = (\<lambda>i. Some (int i)) ` {..<n}"
    using index_of_item_name[OF nodot] by (simp add: image_image)
  moreover have "card ((\<lambda>i. Some (int i)) ` {..<n}) = n"
    by (subst card_image) (auto simp: inj_on_def)
  ultimately show ?thesis unfolding length_indexedMap eq by simp
qed

lemma shift_down_other:
  "\<forall>j. i \<le> j \<and> j < b \<longrightarrow> k \<noteq> item_name name j \<Longrightarrow>
   map_of (shift_down name F i b prev) k = map_of prev k"
proof (induction name F i b prev rule: shift_down.induct)
  case (1 name F i b prev)
  show ?case
  proof (cases "i < b")
    case True
    have ne: "k \<noteq> item_name name i" using "1.prems" True by auto
    have rest: "\<forall>j. i + 1 \<le> j \<and> j < b \<longrightarrow> k \<noteq> item_name name j" using "1.prems" by auto
    show ?thesis
      using "1.IH"[OF True rest] True ne
      by (subst shift_down.simps) (simp add: map_of_updateField)
  next
    case False
    then show ?thesis by (subst shift_down.simps) simp
  qed
qed

lemma shift_down_item:
  "i \<le> j \<Longrightarrow> j < b \<Longrightarrow>
   map_of (shift_down name F i b prev) (item_name name j)
     = Some (spread (or_empty (map_of prev (item_name name j)))
               (or_empty (map_of F (item_name name (j + 1)))))"
proof (induction name F i b prev rule: shift_down.induct)
  case (1 name F i b prev)
  have lt: "i < b" using "1.prems" by simp
  show ?case
  proof (cases "j = i")
    case True
    have "\<forall>j'. i + 1 \<le> j' \<and> j' < b \<longrightarrow> item_name name i \<noteq> item_name name j'"
      using item_name_inj by fastforce
    from shift_down_other[OF this] show ?thesis
      using lt True by (subst shift_down.simps) (simp add: map_of_updateField)
  next
    case False
    then have le: "i + 1 \<le> j" using "1.prems" by simp
    have ne: "item_name name j \<noteq> item_name name i" using False item_name_inj by blast
    show ?thesis
      using "1.IH"[OF lt le "1.prems"(2)] lt ne
      by (subst shift_down.simps) (simp add: map_of_updateField)
  qed
qed

lemma removeHandler_unfold:
  assumes "length (indexedMap name fs) = n" and "0 < n"
  shows "removeHandler name fs i prev
      = deleteField (item_name name (int (n - 1))) (shift_down name fs i (int (n - 1)) prev)"
proof -
  have "int (length (map fst (indexedMap name fs))) - 1 = int (n - 1)"
    using assms by simp
  then show ?thesis unfolding removeHandler_def Let_def by (simp only:)
qed

lemma remove_lookup:
  assumes nodot: "\<not> includes_dot name"
    and only: "\<forall>k \<in> fst ` set fs. startsWith k name \<and> includes_dot k
                 \<longrightarrow> (\<exists>i<n. k = item_name name (int i))"
    and all: "\<forall>i<n. \<exists>r. map_of fs (item_name name (int i)) = Some r \<and> complete r"
    and idx: "index < n"
  shows "(\<forall>i. i < index \<longrightarrow>
            map_of (removeHandler name fs (int index) fs) (item_name name (int i))
              = map_of fs (item_name name (int i)))
    \<and> (\<forall>i. index \<le> i \<and> i + 1 < n \<longrightarrow>
            map_of (removeHandler name fs (int index) fs) (item_name name (int i))
              = map_of fs (item_name name (int (i + 1))))
    \<and> map_of (removeHandler name fs (int index) fs) (item_name name (int (n - 1))) = None
    \<and> (\<forall>k. (\<forall>i<n. k \<noteq> item_name name (int i)) \<longrightarrow>
            map_of (removeHandler name fs (int index) fs) k = map_of fs k)"
proof -
  have all': "\<forall>i<n. item_name name (int i) \<in> fst ` set fs"
  proof (intro allI impI)
    fix i assume "i < n"
    then obtain r where "map_of fs (item_name name (int i)) = Some r" using all by blast
    then have "(item_name name (int i), r) \<in> set fs" by (rule map_of_SomeD)
    then show "item_name name (int i) \<in> fst ` set fs" by force
  qed
  have n: "length (indexedMap name fs) = n" by (rule group_size[OF nodot only all'])
  have pos: "0 < n" using idx by simp
  note rh = removeHandler_unfold[OF n pos]
  have A: "map_of (removeHandler name fs (int index) fs) (item_name name (int i))
             = map_of fs (item_name name (int i))"
    if "i < index" for i
  proof -
    have "int i \<noteq> int (n - 1)" using that idx by simp
    then have ne: "item_name name (int i) \<noteq> item_name name (int (n - 1))" by (rule item_name_neq)
    have "\<forall>j. int index \<le> j \<and> j < int (n - 1) \<longrightarrow> item_name name (int i) \<noteq> item_name name j"
    proof (intro allI impI)
      fix j assume "int index \<le> j \<and> j < int (n - 1)"
      then have "int i \<noteq> j" using that by simp
      then show "item_name name (int i) \<noteq> item_name name j" by (rule item_name_neq)
    qed
    from shift_down_other[OF this] show ?thesis using ne by (simp add: rh map_of_deleteField)
  qed
  have B: "map_of (removeHandler name fs (int index) fs) (item_name name (int i))
             = map_of fs (item_name name (int (i + 1)))"
    if ir: "index \<le> i \<and> i + 1 < n" for i
  proof -
    have "int i \<noteq> int (n - 1)" using ir by simp
    then have ne: "item_name name (int i) \<noteq> item_name name (int (n - 1))" by (rule item_name_neq)
    obtain r where r: "map_of fs (item_name name (int (i + 1))) = Some r" "complete r"
      using all ir by blast
    have le: "int index \<le> int i" and lt: "int i < int (n - 1)" using ir by simp_all
    have i1: "int i + 1 = int (i + 1)" by simp
    have "map_of (shift_down name fs (int index) (int (n - 1)) fs) (item_name name (int i))
       = Some (spread (or_empty (map_of fs (item_name name (int i))))
                 (or_empty (map_of fs (item_name name (int i + 1)))))"
      by (rule shift_down_item[OF le lt])
    also have "\<dots> = Some r" unfolding i1 r or_empty_def by (simp add: spread_complete[OF r(2)])
    finally show ?thesis using ne r(1) by (simp add: rh map_of_deleteField)
  qed
  have C: "map_of (removeHandler name fs (int index) fs) (item_name name (int (n - 1))) = None"
    by (simp add: rh map_of_deleteField)
  have D: "map_of (removeHandler name fs (int index) fs) k = map_of fs k"
    if "\<forall>i<n. k \<noteq> item_name name (int i)" for k
  proof -
    have "n - 1 < n" using pos by simp
    then have ne: "k \<noteq> item_name name (int (n - 1))" using that by blast
    have "\<forall>j. int index \<le> j \<and> j < int (n - 1) \<longrightarrow> k \<noteq> item_name name j"
    proof (intro allI impI)
      fix j assume j: "int index \<le> j \<and> j < int (n - 1)"
      then have "nat j < n" and "int (nat j) = j" using pos by linarith+
      then show "k \<noteq> item_name name j" using that by metis
    qed
    from shift_down_other[OF this] show ?thesis using ne by (simp add: rh map_of_deleteField)
  qed
  show ?thesis using A B C D by blast
qed

lemma dense_group_only:
  assumes "dense_group name n fs"
  shows "\<forall>k \<in> fst ` set fs. startsWith k name \<and> includes_dot k
           \<longrightarrow> (\<exists>i<n. k = item_name name (int i))"
proof (intro ballI impI)
  fix k assume k: "k \<in> fst ` set fs" and m: "startsWith k name \<and> includes_dot k"
  have "k \<in> set (map fst fs)" using k by simp
  then have "k \<in> set (map (\<lambda>i. item_name name (int i)) [0 ..< n])"
    using assms m unfolding dense_group_def list_all_iff by blast
  then show "\<exists>i<n. k = item_name name (int i)" by auto
qed

lemma dense_group_all:
  assumes "dense_group name n fs"
  shows "\<forall>i<n. \<exists>r. map_of fs (item_name name (int i)) = Some r \<and> complete r"
proof (intro allI impI)
  fix i assume "i < n"
  then have "i \<in> set [0 ..< n]" by simp
  then have "case map_of fs (item_name name (int i)) of None \<Rightarrow> False | Some r \<Rightarrow> complete r"
    using assms unfolding dense_group_def list_all_iff by blast
  then show "\<exists>r. map_of fs (item_name name (int i)) = Some r \<and> complete r"
    by (cases "map_of fs (item_name name (int i))") simp_all
qed

lemma dense_groupI:
  assumes "\<forall>k \<in> fst ` set fs. startsWith k name \<and> includes_dot k
             \<longrightarrow> (\<exists>i<n. k = item_name name (int i))"
    and "\<forall>i<n. \<exists>r. map_of fs (item_name name (int i)) = Some r \<and> complete r"
  shows "dense_group name n fs"
  unfolding dense_group_def list_all_iff
proof (intro conjI ballI impI)
  fix k assume "k \<in> set (map fst fs)" and "startsWith k name \<and> includes_dot k"
  then obtain i where "i < n" "k = item_name name (int i)" using assms(1) by auto
  then show "k \<in> set (map (\<lambda>i. item_name name (int i)) [0 ..< n])" by auto
next
  fix i assume "i \<in> set [0 ..< n]"
  then have "i < n" by simp
  then obtain r where "map_of fs (item_name name (int i)) = Some r \<and> complete r"
    using assms(2) by blast
  then show "case map_of fs (item_name name (int i)) of None \<Rightarrow> False | Some r \<Rightarrow> complete r"
    by simp
qed

section \<open>Facts about validation\<close>

text \<open>
  The object \<^verbatim>\<open>errors\<close> that \<^verbatim>\<open>isFormValid\<close> builds is truthy, so neither of the two
  tests \<^verbatim>\<open>errors ? ... : undefined\<close> ever takes its \<^verbatim>\<open>undefined\<close> branch.
\<close>

lemma validateForm_errors_defined:
  "errors (returned (validateForm schema' fs unregisteredErrors touch)) \<noteq> None"
  by (simp add: validateForm_def isFormValid_def Let_def)

section \<open>The claims\<close>

text \<open>
  C1. Claim: the flag \<^verbatim>\<open>valid\<close> returned by \<^verbatim>\<open>validateForm\<close> is true exactly when there
  are neither field-attached nor unregistered errors. The code computes \<^verbatim>\<open>valid\<close> in
  \<^verbatim>\<open>isFormValid\<close> from the field-attached errors alone. For the group \<^verbatim>\<open>tags\<close> with one
  item under a schema that wants two, the issue is at the path \<^verbatim>\<open>tags\<close>, which no stored
  field has: \<^verbatim>\<open>validateForm\<close> returns \<^verbatim>\<open>valid = true\<close> together with a non-empty
  \<^verbatim>\<open>errors\<close>.
\<close>

theorem C1_valid_with_unregistered_error:
  "returned (validateForm two_tags_schema one_tag_form [] False)
     = \<lparr>valid = True,
        errors = Some [(''tags'', JStr ''Array must contain at least 2 element(s)'')],
        fields' = [AtIndex ''tags'' 0 (JStr ''a'')]\<rparr>
   \<and> set_unregisteredErrors (validateForm two_tags_schema one_tag_form [] False)
     = [(''tags'', ''Array must contain at least 2 element(s)'')]"
  by code_simp

text \<open>
  C2. Claim: after the submit handler settles, also by rejecting, \<^verbatim>\<open>submitting\<close> is false
  again and the error reaches the caller. The code calls \<^verbatim>\<open>setSubmitting(false)\<close> after
  the \<^verbatim>\<open>await\<close> with no \<^verbatim>\<open>try\<close>/\<^verbatim>\<open>finally\<close>: with a handler that rejects, passed to the
  call or configured as \<^verbatim>\<open>onSubmit\<close>, the error does reach the caller, and the flag stays
  true.
\<close>

theorem C2_submitting_stuck_after_rejection:
  "st_submitting (final_cells (submitForm accepting_schema None idle (Some rejecting_handler) idle))
     = True
   \<and> promise (submitForm accepting_schema None idle (Some rejecting_handler) idle)
     = Rejected (JStr ''boom'')
   \<and> st_submitting (final_cells (submitForm accepting_schema (Some rejecting_handler) idle None idle))
     = True
   \<and> promise (submitForm accepting_schema (Some rejecting_handler) idle None idle)
     = Rejected (JStr ''boom'')"
  by code_simp

text \<open>
  C3. Claim: a second \<^verbatim>\<open>submitForm\<close> call made before the first is awaited is a no-op
  with a warning, and the handler runs once. The guard of the code tests the constant
  \<^verbatim>\<open>submitting\<close> of its closure, which the first call's \<^verbatim>\<open>setSubmitting(true)\<close> does not
  change: two calls of one closure both pass the guard and the handler runs twice,
  with no warning. The guard fires for a closure of a later render, which captured
  \<^verbatim>\<open>submitting = true\<close>.
\<close>

theorem C3_second_synchronous_submit_runs:
  "observed (submitForm_twice accepting_schema None idle (Some resolving_handler) idle)
     = [Invoke \<lparr>valid = True, errors = Some [], fields' = []\<rparr>,
        Invoke \<lparr>valid = True, errors = Some [], fields' = []\<rparr>]
   \<and> submitForm_begin accepting_schema None (idle\<lparr>st_submitting := True\<rparr>)
        (Some resolving_handler) (idle\<lparr>st_submitting := True\<rparr>)
     = \<lparr>cells = idle\<lparr>st_submitting := True\<rparr>,
        events = [Warn ''Cannot submit a form while is it already submitting''],
        suspended = Returned\<rparr>"
  by code_simp

text \<open>
  C4. Claim: for a name that is not stored, \<^verbatim>\<open>updateField\<close>, \<^verbatim>\<open>unregister\<close> and
  \<^verbatim>\<open>reregister\<close> are no-ops that create no entry. In the code each of them assigns
  \<^verbatim>\<open>[name]: {...(_prev[name] || {}), ...}\<close>, which creates the entry: on the form with
  the one field \<^verbatim>\<open>email\<close>, each stores the new name \<^verbatim>\<open>ghost\<close>.
\<close>

theorem C4_unknown_name_is_stored:
  "map fst email_form = [''email'']
   \<and> map fst (updateField ''ghost'' None email_form) = [''email'', ''ghost'']
   \<and> map fst (unregisterField ''ghost'' email_form) = [''email'', ''ghost'']
   \<and> map fst (reregisterField ''ghost'' email_form) = [''email'', ''ghost'']"
  by code_simp

text \<open>
  C4, as the code has it: for a name that is not stored, none of the three operations
  fails and none changes another entry, and each creates an entry for the name:
  \<^verbatim>\<open>updateField\<close> stores the properties it was given, \<^verbatim>\<open>unregister\<close> stores
  \<^verbatim>\<open>{_registered: false}\<close> and \<^verbatim>\<open>reregister\<close> stores \<^verbatim>\<open>{_registered: true}\<close>.
\<close>

theorem C4_unknown_name_creates_entry:
  assumes "map_of fs name = None"
  shows "map_of (updateField name p fs) = (map_of fs)(name \<mapsto> or_empty p)
       \<and> map_of (unregisterField name fs)
           = (map_of fs)(name \<mapsto> empty_object\<lparr>registered := Some (JBool False)\<rparr>)
       \<and> map_of (reregisterField name fs)
           = (map_of fs)(name \<mapsto> empty_object\<lparr>registered := Some (JBool True)\<rparr>)"
  using assms
  by (simp add: map_of_updateField unregisterField_def reregisterField_def or_empty_def
      update_conv' spread_empty)

theorem C4_unknown_name_creates_entry_witness:
  "map_of email_form ''ghost'' = None
   \<and> map_of (updateField ''ghost'' (Some (empty_object\<lparr>value := Some (JStr ''x'')\<rparr>)) email_form)
       ''ghost''
     = Some (empty_object\<lparr>value := Some (JStr ''x'')\<rparr>)
   \<and> map_of (updateField ''ghost'' (Some (empty_object\<lparr>value := Some (JStr ''x'')\<rparr>)) email_form)
       ''email''
     = map_of email_form ''email''
   \<and> map_of (unregisterField ''ghost'' email_form) ''ghost''
     = Some (empty_object\<lparr>registered := Some (JBool False)\<rparr>)
   \<and> map_of (reregisterField ''ghost'' email_form) ''ghost''
     = Some (empty_object\<lparr>registered := Some (JBool True)\<rparr>)"
proof -
  have h: "map_of email_form ''ghost'' = None" by code_simp
  show ?thesis
    using h C4_unknown_name_creates_entry
      [OF h, of "Some (empty_object\<lparr>value := Some (JStr ''x'')\<rparr>)"]
    by (simp add: or_empty_def)
qed

text \<open>
  C5. Claim: a single field registered with a resolvable initial value and no
  \<^verbatim>\<open>value\<close> in its props gets that initial value as \<^verbatim>\<open>originalValue\<close>, and \<^verbatim>\<open>resetForm\<close>
  restores it. The \<^verbatim>\<open>isArray\<close> branch of \<^verbatim>\<open>registerField\<close> does set
  \<^verbatim>\<open>originalValue: item\<close>, but the branch for a single field sets
  \<^verbatim>\<open>originalValue: field.value ?? undefined\<close>, from the props: the field \<^verbatim>\<open>email\<close>
  registered under the initial value \<^verbatim>\<open>"a@b.com"\<close> has the value \<^verbatim>\<open>"a@b.com"\<close> and the
  \<^verbatim>\<open>originalValue\<close> \<^verbatim>\<open>undefined\<close>, and \<^verbatim>\<open>resetForm\<close> sets its value to \<^verbatim>\<open>undefined\<close>.
\<close>

theorem C5_originalValue_is_not_the_initial_value:
  "resolve_initial email_initial ''email'' = JStr ''a@b.com''
   \<and> map_of email_form ''email''
     = Some \<lparr>required = Some (JBool False), touched = Some (JBool True),
             originalValue = Some JUndefined, value = Some (JStr ''a@b.com''),
             error = Some (JBool False), errorMessage = Some JNull,
             registered = Some (JBool True), item = Some (JBool False)\<rparr>
   \<and> map_of (resetForm email_form) ''email''
     = Some \<lparr>required = Some (JBool False), touched = Some (JBool False),
             originalValue = Some JUndefined, value = Some JUndefined,
             error = Some (JBool False), errorMessage = Some JNull,
             registered = Some (JBool True), item = Some (JBool False)\<rparr>"
  by code_simp

text \<open>
  C6. Claim: with no required field and a validator that reports success,
  \<^verbatim>\<open>validateForm\<close> returns \<^verbatim>\<open>valid = true\<close> and \<^verbatim>\<open>errors = undefined\<close>, not an empty object.
  The code writes \<^verbatim>\<open>errors ? {...} : undefined\<close>, but \<^verbatim>\<open>errors\<close> is an object and so is
  truthy also when empty: for the form with the one valid field \<^verbatim>\<open>email\<close> the result
  has \<^verbatim>\<open>valid = true\<close> and \<^verbatim>\<open>errors\<close> the empty object.
\<close>

theorem C6_errors_is_the_empty_object:
  "returned (validateForm accepting_schema email_form [] False)
     = \<lparr>valid = True, errors = Some [], fields' = [AtKey ''email'' (JStr ''a@b.com'')]\<rparr>"
  by code_simp

text \<open>
  C7. Claim: for every group of \<open>n\<close> items and every index in range, \<^verbatim>\<open>remove\<close> leaves
  the group as the dense sequence of the other \<open>n - 1\<close> items, each with its value,
  error and touched state. Two inputs where the code does otherwise. With the groups
  \<^verbatim>\<open>tag\<close> (one item) and \<^verbatim>\<open>tags\<close> (two items), the test \<^verbatim>\<open>k.startsWith("tag")\<close> counts the
  items of both, and removing item 0 of \<^verbatim>\<open>tag\<close> changes nothing. With an item
  \<^verbatim>\<open>tags.1\<close> that has only the property \<^verbatim>\<open>value\<close>, \<^verbatim>\<open>updateField\<close> merges it into the record
  of \<^verbatim>\<open>tags.0\<close>, which keeps its own error state.
\<close>

theorem C7_remove_counterexample:
  "map fst collide_form = [''tag.0'', ''tags.0'', ''tags.1'']
   \<and> removeHandler ''tag'' collide_form 0 collide_form = collide_form
   \<and> map_of partial_form ''tags.1'' = Some (empty_object\<lparr>value := Some (JStr ''b'')\<rparr>)
   \<and> map_of (removeHandler ''tags'' partial_form 0 partial_form) ''tags.0''
     \<noteq> map_of partial_form ''tags.1''
   \<and> error (the (map_of (removeHandler ''tags'' partial_form 0 partial_form) ''tags.0''))
     = Some (JBool True)"
  by code_simp

text \<open>
  C7, as the code has it: let the group name contain no dot, let the stored names that
  start with the group name and contain a dot be among \<^verbatim>\<open>name.0\<close>, ..., \<^verbatim>\<open>name.(n-1)\<close>,
  each of these holding a complete record, and let \<open>index < n\<close>. Then after
  \<^verbatim>\<open>remove(index)\<close> the items before \<open>index\<close> are unchanged, item \<open>i\<close> holds the whole
  record that item \<open>i + 1\<close> held, for every \<open>i\<close> from \<open>index\<close> to \<open>n - 2\<close>, item \<open>n - 1\<close> is
  gone, every other entry is unchanged, and the group is dense with \<open>n - 1\<close> items.
\<close>

theorem C7_remove_shifts_down:
  assumes nodot: "\<not> includes_dot name"
    and dense: "dense_group name n fs"
    and idx: "index < n"
  shows "(\<forall>i. i < index \<longrightarrow>
            map_of (removeHandler name fs (int index) fs) (item_name name (int i))
              = map_of fs (item_name name (int i)))
       \<and> (\<forall>i. index \<le> i \<and> i + 1 < n \<longrightarrow>
            map_of (removeHandler name fs (int index) fs) (item_name name (int i))
              = map_of fs (item_name name (int (i + 1))))
       \<and> map_of (removeHandler name fs (int index) fs) (item_name name (int (n - 1))) = None
       \<and> (\<forall>k. (\<forall>i<n. k \<noteq> item_name name (int i)) \<longrightarrow>
            map_of (removeHandler name fs (int index) fs) k = map_of fs k)
       \<and> dense_group name (n - 1) (removeHandler name fs (int index) fs)"
proof -
  let ?fs' = "removeHandler name fs (int index) fs"
  note only = dense_group_only[OF dense]
  note all = dense_group_all[OF dense]
  note L = remove_lookup[OF nodot only all idx]
  have A: "map_of ?fs' (item_name name (int i)) = map_of fs (item_name name (int i))"
    if "i < index" for i
    using L that by blast
  have B: "map_of ?fs' (item_name name (int i)) = map_of fs (item_name name (int (i + 1)))"
    if "index \<le> i" "i + 1 < n" for i
    using L that by blast
  have C: "map_of ?fs' (item_name name (int (n - 1))) = None" using L by blast
  have D: "map_of ?fs' k = map_of fs k" if "\<forall>i<n. k \<noteq> item_name name (int i)" for k
    using L that by blast
  have only': "\<forall>k \<in> fst ` set ?fs'. startsWith k name \<and> includes_dot k
                 \<longrightarrow> (\<exists>i<n - 1. k = item_name name (int i))"
  proof (intro ballI impI)
    fix k assume k: "k \<in> fst ` set ?fs'" and m: "startsWith k name \<and> includes_dot k"
    have stored: "map_of ?fs' k \<noteq> None" using k by (simp add: map_of_eq_None_iff)
    show "\<exists>i<n - 1. k = item_name name (int i)"
    proof (cases "\<exists>i<n. k = item_name name (int i)")
      case True
      then obtain i where i: "i < n" "k = item_name name (int i)" by blast
      have "i \<noteq> n - 1" using stored C i(2) by auto
      then have "i < n - 1" using i(1) by simp
      then show ?thesis using i(2) by blast
    next
      case False
      then have "map_of ?fs' k = map_of fs k" using D by blast
      then have "k \<in> fst ` set fs" using stored by (simp add: map_of_eq_None_iff)
      then show ?thesis using only m False by blast
    qed
  qed
  have all': "\<forall>i<n - 1. \<exists>r. map_of ?fs' (item_name name (int i)) = Some r \<and> complete r"
  proof (intro allI impI)
    fix i assume i: "i < n - 1"
    show "\<exists>r. map_of ?fs' (item_name name (int i)) = Some r \<and> complete r"
    proof (cases "i < index")
      case True
      have "i < n" using i by simp
      then show ?thesis using A[OF True] all by simp
    next
      case False
      then have le: "index \<le> i" by simp
      have lt: "i + 1 < n" using i by simp
      obtain r where "map_of fs (item_name name (int (i + 1))) = Some r \<and> complete r"
        using all lt by blast
      then show ?thesis by (simp only: B[OF le lt]) blast
    qed
  qed
  have E: "dense_group name (n - 1) ?fs'" by (rule dense_groupI[OF only' all'])
  show ?thesis using A B C D E by blast
qed

theorem C7_remove_shifts_down_witness:
  "\<not> includes_dot ''tags'' \<and> dense_group ''tags'' 2 tags_form \<and> (0::nat) < 2
   \<and> map_of (removeHandler ''tags'' tags_form 0 tags_form) ''tags.0'' = map_of tags_form ''tags.1''
   \<and> map_of (removeHandler ''tags'' tags_form 0 tags_form) ''tags.1'' = None
   \<and> dense_group ''tags'' 1 (removeHandler ''tags'' tags_form 0 tags_form)"
proof -
  have h1: "\<not> includes_dot ''tags''" by (simp add: includes_dot_def)
  have h2: "dense_group ''tags'' 2 tags_form" by code_simp
  have h3: "(0::nat) < 2" by simp
  have n0: "item_name ''tags'' 0 = ''tags.0''" by code_simp
  have n1: "item_name ''tags'' 1 = ''tags.1''" by code_simp
  note T = C7_remove_shifts_down[OF h1 h2 h3]
  have s: "\<forall>i. (0::nat) \<le> i \<and> i + 1 < 2 \<longrightarrow>
            map_of (removeHandler ''tags'' tags_form (int 0) tags_form) (item_name ''tags'' (int i))
              = map_of tags_form (item_name ''tags'' (int (i + 1)))"
    by (rule conjunct1[OF conjunct2[OF T]])
  have c: "(0::nat) \<le> 0 \<and> (0::nat) + 1 < 2" by simp
  have "map_of (removeHandler ''tags'' tags_form (int 0) tags_form) (item_name ''tags'' (int 0))
        = map_of tags_form (item_name ''tags'' (int (0 + 1)))"
    using s c by blast
  then have a: "map_of (removeHandler ''tags'' tags_form 0 tags_form) ''tags.0''
                  = map_of tags_form ''tags.1''"
    by (simp add: n0 n1)
  have b: "map_of (removeHandler ''tags'' tags_form 0 tags_form) ''tags.1'' = None"
    using T by (simp add: n1)
  have d: "dense_group ''tags'' 1 (removeHandler ''tags'' tags_form 0 tags_form)"
    using T by simp
  show ?thesis using h1 h2 h3 a b d by blast
qed

text \<open>
  C8. For every stored field, \<^verbatim>\<open>unregister\<close> and \<^verbatim>\<open>reregister\<close> change only its
  \<^verbatim>\<open>_registered\<close> flag, to false and to true, and no other entry; after \<^verbatim>\<open>unregister\<close>
  followed by \<^verbatim>\<open>reregister\<close> the field has its value and every other property as
  before, with \<^verbatim>\<open>_registered\<close> true, and the stored names and their order are the same.
\<close>

theorem C8_unregister_reregister_keeps_record:
  assumes "map_of fs name = Some f"
  shows "map_of (unregisterField name fs) = (map_of fs)(name \<mapsto> f\<lparr>registered := Some (JBool False)\<rparr>)
       \<and> map_of (reregisterField name fs) = (map_of fs)(name \<mapsto> f\<lparr>registered := Some (JBool True)\<rparr>)
       \<and> map_of (reregisterField name (unregisterField name fs))
           = (map_of fs)(name \<mapsto> f\<lparr>registered := Some (JBool True)\<rparr>)
       \<and> map fst (reregisterField name (unregisterField name fs)) = map fst fs"
proof -
  have stored: "name \<in> fst ` set fs" using assms by (metis map_of_eq_None_iff option.distinct(1))
  show ?thesis
    using assms stored
    by (simp add: unregisterField_def reregisterField_def or_empty_def update_conv' update_keys)
qed

theorem C8_unregister_reregister_keeps_record_witness:
  "map_of email_form ''email''
     = Some \<lparr>required = Some (JBool False), touched = Some (JBool True),
             originalValue = Some JUndefined, value = Some (JStr ''a@b.com''),
             error = Some (JBool False), errorMessage = Some JNull,
             registered = Some (JBool True), item = Some (JBool False)\<rparr>
   \<and> map_of (unregisterField ''email'' email_form) ''email''
     = Some \<lparr>required = Some (JBool False), touched = Some (JBool True),
             originalValue = Some JUndefined, value = Some (JStr ''a@b.com''),
             error = Some (JBool False), errorMessage = Some JNull,
             registered = Some (JBool False), item = Some (JBool False)\<rparr>
   \<and> map_of (reregisterField ''email'' (unregisterField ''email'' email_form)) ''email''
     = map_of email_form ''email''"
proof -
  have h: "map_of email_form ''email''
     = Some \<lparr>required = Some (JBool False), touched = Some (JBool True),
             originalValue = Some JUndefined, value = Some (JStr ''a@b.com''),
             error = Some (JBool False), errorMessage = Some JNull,
             registered = Some (JBool True), item = Some (JBool False)\<rparr>"
    by code_simp
  show ?thesis using h C8_unregister_reregister_keeps_record[OF h] by simp
qed

text \<open>
  C9. \<^verbatim>\<open>resetForm\<close> is idempotent: applied twice it yields the registry that it yields
  applied once, the same names in the same order, each with the same record.
\<close>

theorem C9_resetForm_idempotent: "resetForm (resetForm fs) = resetForm fs"
  unfolding resetForm_def by (rule rebuild_idem) simp

text \<open>
  C10. For every stored field, the \<^verbatim>\<open>error\<close> of the binding that \<^verbatim>\<open>Field\<close> hands to its
  children is truthy exactly when both \<^verbatim>\<open>error\<close> and \<^verbatim>\<open>touched\<close> of the record are; for
  an untouched field it is falsy whatever validation recorded, while the binding still
  carries the record's \<^verbatim>\<open>errorMessage\<close>.
\<close>

theorem C10_binding_error_needs_touched:
  assumes "map_of fs name = Some f"
  shows "truthy (read (error (Field_contextValue intent' fs name)))
           = (truthy (read (error f)) \<and> truthy (read (touched f)))
       \<and> errorMessage (Field_contextValue intent' fs name) = errorMessage f
       \<and> (\<not> truthy (read (touched f))
            \<longrightarrow> \<not> truthy (read (error (Field_contextValue intent' fs name))))"
  using assms
  by (auto simp: Let_def Field_contextValue_def optional_read_def or_empty_def js_and_def read_def
      FormFieldType.defs FieldContextType.defs)

theorem C10_binding_error_needs_touched_witness:
  "map_of [(''email'', untouched_errored)] ''email'' = Some untouched_errored
   \<and> error untouched_errored = Some (JBool True)
   \<and> \<not> truthy (read (touched untouched_errored))
   \<and> \<not> truthy (read (error (Field_contextValue None [(''email'', untouched_errored)] ''email'')))
   \<and> errorMessage (Field_contextValue None [(''email'', untouched_errored)] ''email'')
     = Some (JStr ''Required'')"
proof -
  have h: "map_of [(''email'', untouched_errored)] ''email'' = Some untouched_errored" by simp
  show ?thesis
    using h C10_binding_error_needs_touched[OF h, of None]
    by (simp add: untouched_errored_def read_def)
qed

end
